theory Spec2Isabelle
  imports Main
begin

section \<open>Python string primitives used by the smali text engine\<close>

text \<open>
  A Python \<open>str\<close> is modelled as a \<open>string\<close>; a \<open>char\<close> stands for one code point
  below 256.  The functions below are the library operations the source calls:
  \<open>content.split("\n")\<close>, \<open>"\n".join(xs)\<close>, \<open>str.strip()\<close>, \<open>str.startswith\<close> and the
  substring test \<open>p in s\<close>.
\<close>

text \<open>The characters for which \<open>str.isspace()\<close> holds (those removed by \<open>strip()\<close>).\<close>

definition is_space :: "char \<Rightarrow> bool" where
  "is_space c \<longleftrightarrow>
     c = CHR 0x09 \<or> c = CHR 0x0A \<or> c = CHR 0x0B \<or> c = CHR 0x0C \<or> c = CHR 0x0D \<or>
     c = CHR 0x1C \<or> c = CHR 0x1D \<or> c = CHR 0x1E \<or> c = CHR 0x1F \<or> c = CHR 0x20 \<or>
     c = CHR 0x85 \<or> c = CHR 0xA0"

definition strip :: "string \<Rightarrow> string" where
  "strip s = rev (dropWhile is_space (rev (dropWhile is_space s)))"

text \<open>\<open>startswith s p\<close> is \<open>s.startswith(p)\<close>.\<close>

fun startswith :: "string \<Rightarrow> string \<Rightarrow> bool" where
  "startswith s [] \<longleftrightarrow> True"
| "startswith [] (p # ps) \<longleftrightarrow> False"
| "startswith (c # cs) (p # ps) \<longleftrightarrow> c = p \<and> startswith cs ps"

text \<open>\<open>str_in p s\<close> is Python's \<open>p in s\<close>: \<open>p\<close> occurs in \<open>s\<close> as a contiguous substring.\<close>

fun str_in :: "string \<Rightarrow> string \<Rightarrow> bool" where
  "str_in p [] \<longleftrightarrow> p = []"
| "str_in p (c # cs) \<longleftrightarrow> startswith (c # cs) p \<or> str_in p cs"

text \<open>\<open>split_nl s\<close> is \<open>s.split("\n")\<close>; it never returns the empty list.\<close>

fun split_nl :: "string \<Rightarrow> string list" where
  "split_nl [] = [[]]"
| "split_nl (c # cs) =
     (if c = CHR 0x0A then [] # split_nl cs
      else (case split_nl cs of [] \<Rightarrow> [[c]] | l # ls \<Rightarrow> (c # l) # ls))"

text \<open>\<open>join_nl xs\<close> is \<open>"\n".join(xs)\<close>.\<close>

fun join_nl :: "string list \<Rightarrow> string" where
  "join_nl [] = []"
| "join_nl [l] = l"
| "join_nl (l # m # ls) = l @ CHR 0x0A # join_nl (m # ls)"

text \<open>\<open>insert_before_last xs x\<close> is the effect of \<open>xs.insert(-1, x)\<close> on a Python list.\<close>

definition insert_before_last :: "'a list \<Rightarrow> 'a \<Rightarrow> 'a list" where
  "insert_before_last xs x = (if xs = [] then [x] else butlast xs @ [x, last xs])"


section \<open>The method editor (\<open>smali_utils.py\<close>)\<close>

text \<open>
  The bodies of \<open>get_method_from_smali\<close>, \<open>replace_method_in_smali\<close> and
  \<open>insert_smali_code\<close> stand in \<open>try\<close> blocks.  Nothing inside them raises on strings (they
  split, join, trim, compare and append), so the \<open>except\<close> branches are never taken and have
  no counterpart here.
\<close>

text \<open>
  The result dictionaries.  Every result carries \<open>success\<close> and \<open>error\<close>; an edit result adds
  \<open>content\<close>, an extraction result adds the key \<open>method\<close> (the field \<open>method_text\<close>)
  and, on success only, the 1-based \<open>start_line\<close> and \<open>end_line\<close>.
\<close>

record result =
  success :: bool
  error :: string

record edit_result = result +
  content :: string

record method_result = result +
  method_text :: string
  start_line :: "nat option"
  end_line :: "nat option"

text \<open>The test \<open>".method" in line and method_name in line\<close> shared by the three scans.\<close>

definition is_target :: "string \<Rightarrow> string \<Rightarrow> bool" where
  "is_target method_name line \<longleftrightarrow> str_in ''.method'' line \<and> str_in method_name line"

definition is_end_method :: "string \<Rightarrow> bool" where
  "is_end_method line \<longleftrightarrow> strip line = ''.end method''"

text \<open>
  A method-start line, as the parser recognises it: the trimmed line begins with
  \<open>.method\<close>.  The three scans of the editor do not use this test; they use \<open>is_target\<close>.
\<close>

definition is_method_start :: "string \<Rightarrow> bool" where
  "is_method_start line \<longleftrightarrow> startswith (strip line) ''.method''"

definition not_found :: "string \<Rightarrow> string" where
  "not_found method_name = ''Method not found: '' @ method_name"

subsection \<open>\<open>get_method_from_smali\<close>\<close>

text \<open>
  The \<open>for i, line in enumerate(lines)\<close> loop of \<open>get_method_from_smali\<close>: \<open>i\<close> is the
  0-based index of the line at hand, \<open>in_method\<close>, \<open>method_lines\<close> and \<open>start_line\<close> are the
  loop's variables.  The \<open>return\<close> inside the loop ends the recursion; running off the end of
  the lines yields the not-found dictionary.
\<close>

fun get_method_loop ::
  "string \<Rightarrow> string list \<Rightarrow> nat \<Rightarrow> bool \<Rightarrow> string list \<Rightarrow> nat \<Rightarrow> method_result" where
  "get_method_loop method_name [] i in_method method_lines start_ln =
     \<lparr>success = False, error = not_found method_name, method_text = '''',
      start_line = None, end_line = None\<rparr>"
| "get_method_loop method_name (line # rest) i in_method method_lines start_ln =
     (if is_target method_name line then
        get_method_loop method_name rest (i + 1) True [line] (i + 1)
      else if in_method then
        (if is_end_method line then
           \<lparr>success = True, error = '''', method_text = join_nl (method_lines @ [line]),
            start_line = Some start_ln, end_line = Some (i + 1)\<rparr>
         else get_method_loop method_name rest (i + 1) in_method (method_lines @ [line]) start_ln)
      else get_method_loop method_name rest (i + 1) in_method method_lines start_ln)"

definition get_method_from_smali :: "string \<Rightarrow> string \<Rightarrow> method_result" where
  "get_method_from_smali doc method_name =
     get_method_loop method_name (split_nl doc) 0 False [] 0"

subsection \<open>\<open>replace_method_in_smali\<close>\<close>

text \<open>
  The loop of \<open>replace_method_in_smali\<close> over \<open>result_lines\<close>, \<open>in_method\<close> and
  \<open>method_replaced\<close>.
\<close>

fun replace_loop ::
  "string \<Rightarrow> string \<Rightarrow> string list \<Rightarrow> string list \<Rightarrow> bool \<Rightarrow> bool \<Rightarrow> string list \<times> bool" where
  "replace_loop method_name new_method_body [] result_lines in_method method_replaced =
     (result_lines, method_replaced)"
| "replace_loop method_name new_method_body (line # rest) result_lines in_method method_replaced =
     (if is_target method_name line then
        replace_loop method_name new_method_body rest (result_lines @ [new_method_body]) True True
      else if in_method then
        replace_loop method_name new_method_body rest result_lines
          (if is_end_method line then False else in_method) method_replaced
      else
        replace_loop method_name new_method_body rest (result_lines @ [line])
          in_method method_replaced)"

definition replace_method_in_smali :: "string \<Rightarrow> string \<Rightarrow> string \<Rightarrow> edit_result" where
  "replace_method_in_smali doc method_name new_method_body =
     (case replace_loop method_name new_method_body (split_nl doc) [] False False of
        (result_lines, method_replaced) \<Rightarrow>
          if \<not> method_replaced then
            \<lparr>success = False, error = not_found method_name, content = ''''\<rparr>
          else
            \<lparr>success = True, error = '''', content = join_nl result_lines\<rparr>)"

subsection \<open>\<open>insert_smali_code\<close>\<close>

text \<open>
  The \<open>for\<close> loop of \<open>insert_smali_code\<close>, with its variables \<open>result_lines\<close>, \<open>in_method\<close>
  and \<open>method_found\<close> passed along; it returns \<open>result_lines\<close> and \<open>method_found\<close>.
\<close>

fun insert_loop ::
  "string \<Rightarrow> string \<Rightarrow> string \<Rightarrow> string list \<Rightarrow> string list \<Rightarrow> bool \<Rightarrow> bool
     \<Rightarrow> string list \<times> bool" where
  "insert_loop method_name code position [] result_lines in_method method_found =
     (result_lines, method_found)"
| "insert_loop method_name code position (line # rest) result_lines in_method method_found =
     (let result_lines = result_lines @ [line] in
      if is_target method_name line then
        insert_loop method_name code position rest result_lines True True
      else if in_method then
        (if position = ''start'' \<and> startswith (strip line) ''.locals'' then
           insert_loop method_name code position rest (result_lines @ [code]) in_method method_found
         else if is_end_method line then
           insert_loop method_name code position rest
             (if position = ''end'' then insert_before_last result_lines code else result_lines)
             False method_found
         else insert_loop method_name code position rest result_lines in_method method_found)
      else insert_loop method_name code position rest result_lines in_method method_found)"

definition insert_smali_code :: "string \<Rightarrow> string \<Rightarrow> string \<Rightarrow> string \<Rightarrow> edit_result" where
  "insert_smali_code doc method_name code_to_insert position =
     (case insert_loop method_name code_to_insert position (split_nl doc) [] False False of
        (result_lines, method_found) \<Rightarrow>
          if \<not> method_found then
            \<lparr>success = False, error = not_found method_name, content = ''''\<rparr>
          else
            \<lparr>success = True, error = '''', content = join_nl result_lines\<rparr>)"

text \<open>
  The lines that the scans treat as lying inside a matched method: every line read while
  \<open>in_method\<close> is set, that is, after a line matching the target and up to and including the
  next end marker.  Lines matching the target themselves are the start lines and are not
  collected.
\<close>

fun matched_method_lines :: "string \<Rightarrow> bool \<Rightarrow> string list \<Rightarrow> string list" where
  "matched_method_lines method_name in_method [] = []"
| "matched_method_lines method_name in_method (line # rest) =
     (if is_target method_name line then matched_method_lines method_name True rest
      else if in_method then
        line # matched_method_lines method_name (\<not> is_end_method line) rest
      else matched_method_lines method_name False rest)"


section \<open>The smali parser (\<open>parse_smali_class\<close>)\<close>

subsection \<open>The regular expressions\<close>

text \<open>
  The patterns handed to \<open>re.search\<close> are sequences of literal characters, repetitions of one
  character class (\<open>+\<close>, \<open>*\<close> and their lazy forms \<open>+?\<close>, \<open>*?\<close>) and capture groups that are
  not nested.  \<open>Rep cls m greedy\<close> repeats the class \<open>cls\<close> at least \<open>m\<close> times.
\<close>

datatype rx_item = Lit char | Rep "char \<Rightarrow> bool" nat bool | GroupOpen | GroupClose

text \<open>The text of the capture group that is open (if one is) grows by each character consumed.\<close>

definition grow :: "string option \<Rightarrow> char \<Rightarrow> string option" where
  "grow g c = map_option (\<lambda>t. t @ [c]) g"

text \<open>
  \<open>rx_match items s groups g\<close> matches the pattern \<open>items\<close> at the beginning of \<open>s\<close> with
  backtracking, in the order of Python's \<open>re\<close>: a greedy repetition tries the longest run
  first, a lazy one the shortest.  The result is the list of the captured groups.
\<close>

fun rx_match ::
  "rx_item list \<Rightarrow> string \<Rightarrow> string list \<Rightarrow> string option \<Rightarrow> string list option" where
  "rx_match [] s groups g = Some groups"
| "rx_match (Lit c # items) [] groups g = None"
| "rx_match (Lit c # items) (x # xs) groups g =
     (if x = c then rx_match items xs groups (grow g x) else None)"
| "rx_match (GroupOpen # items) s groups g = rx_match items s groups (Some [])"
| "rx_match (GroupClose # items) s groups g =
     rx_match items s (groups @ [case g of None \<Rightarrow> [] | Some t \<Rightarrow> t]) None"
| "rx_match (Rep cls (Suc m) greedy # items) [] groups g = None"
| "rx_match (Rep cls (Suc m) greedy # items) (x # xs) groups g =
     (if cls x then rx_match (Rep cls m greedy # items) xs groups (grow g x) else None)"
| "rx_match (Rep cls 0 True # items) [] groups g = rx_match items [] groups g"
| "rx_match (Rep cls 0 True # items) (x # xs) groups g =
     (if cls x then
        (case rx_match (Rep cls 0 True # items) xs groups (grow g x) of
           Some r \<Rightarrow> Some r
         | None \<Rightarrow> rx_match items (x # xs) groups g)
      else rx_match items (x # xs) groups g)"
| "rx_match (Rep cls 0 False # items) [] groups g = rx_match items [] groups g"
| "rx_match (Rep cls 0 False # items) (x # xs) groups g =
     (case rx_match items (x # xs) groups g of
        Some r \<Rightarrow> Some r
      | None \<Rightarrow>
          if cls x then rx_match (Rep cls 0 False # items) xs groups (grow g x) else None)"

text \<open>\<open>re.search\<close>: the first position of the line at which the pattern matches.\<close>

fun rx_search :: "rx_item list \<Rightarrow> string \<Rightarrow> string list option" where
  "rx_search items [] = rx_match items [] [] None"
| "rx_search items (c # cs) =
     (case rx_match items (c # cs) [] None of
        Some r \<Rightarrow> Some r
      | None \<Rightarrow> rx_search items cs)"

text \<open>
  The character classes: \<open>\S\<close>, \<open>.\<close>, \<open>[^)]\<close>, \<open>[^"]\<close>, \<open>\w\<close> (letters, digits and the
  underscore, for code points below 256) and \<open>[\w/$]\<close>; \<open>\s\<close> is \<open>is_space\<close>.
\<close>

definition non_space :: "char \<Rightarrow> bool" where
  "non_space c \<longleftrightarrow> \<not> is_space c"

definition any_char :: "char \<Rightarrow> bool" where
  "any_char c \<longleftrightarrow> c \<noteq> CHR 0x0A"

definition not_rparen :: "char \<Rightarrow> bool" where
  "not_rparen c \<longleftrightarrow> c \<noteq> CHR '')''"

definition not_quote :: "char \<Rightarrow> bool" where
  "not_quote c \<longleftrightarrow> c \<noteq> CHR 0x22"

definition is_word :: "char \<Rightarrow> bool" where
  "is_word c \<longleftrightarrow>
     (let n = (of_char c :: nat) in
      (48 \<le> n \<and> n \<le> 57) \<or> (65 \<le> n \<and> n \<le> 90) \<or> n = 95 \<or> (97 \<le> n \<and> n \<le> 122) \<or>
      n = 170 \<or> n = 178 \<or> n = 179 \<or> n = 181 \<or> n = 185 \<or> n = 186 \<or>
      (188 \<le> n \<and> n \<le> 190) \<or> (192 \<le> n \<and> n \<le> 214) \<or> (216 \<le> n \<and> n \<le> 246) \<or>
      (248 \<le> n \<and> n \<le> 255))"

definition class_char :: "char \<Rightarrow> bool" where
  "class_char c \<longleftrightarrow> is_word c \<or> c = CHR ''/'' \<or> c = CHR ''$''"

text \<open>
  The six patterns of the parser, in the order of its branches:
  \<^verbatim>\<open>\.class\s+.*?(L[\w/$]+;)\<close>, \<^verbatim>\<open>\.super\s+(L[\w/$]+;)\<close>, \<^verbatim>\<open>\.source\s+"([^"]+)"\<close>,
  \<^verbatim>\<open>\.implements\s+(L[\w/$]+;)\<close>, \<^verbatim>\<open>\.field\s+(\S+)\s+(\S+):(\S+)\<close> and
  \<^verbatim>\<open>\.method\s+(.+?)\s+(\S+)\(([^)]*)\)(\S+)\<close>.
\<close>

definition class_type_re :: "rx_item list" where
  "class_type_re = [GroupOpen, Lit CHR ''L'', Rep class_char 1 True, Lit CHR '';'', GroupClose]"

definition class_re :: "rx_item list" where
  "class_re = map Lit ''.class'' @ [Rep is_space 1 True, Rep any_char 0 False] @ class_type_re"

definition super_re :: "rx_item list" where
  "super_re = map Lit ''.super'' @ [Rep is_space 1 True] @ class_type_re"

definition source_re :: "rx_item list" where
  "source_re = map Lit ''.source'' @
     [Rep is_space 1 True, Lit CHR 0x22, GroupOpen, Rep not_quote 1 True, GroupClose,
      Lit CHR 0x22]"

definition implements_re :: "rx_item list" where
  "implements_re = map Lit ''.implements'' @ [Rep is_space 1 True] @ class_type_re"

definition field_re :: "rx_item list" where
  "field_re = map Lit ''.field'' @
     [Rep is_space 1 True, GroupOpen, Rep non_space 1 True, GroupClose,
      Rep is_space 1 True, GroupOpen, Rep non_space 1 True, GroupClose, Lit CHR '':'',
      GroupOpen, Rep non_space 1 True, GroupClose]"

definition method_re :: "rx_item list" where
  "method_re = map Lit ''.method'' @
     [Rep is_space 1 True, GroupOpen, Rep any_char 1 False, GroupClose,
      Rep is_space 1 True, GroupOpen, Rep non_space 1 True, GroupClose, Lit CHR ''('',
      GroupOpen, Rep not_rparen 0 True, GroupClose, Lit CHR '')'',
      GroupOpen, Rep non_space 1 True, GroupClose]"

subsection \<open>The parser\<close>

text \<open>
  The dictionaries of the parser (\<open>field_list\<close> is the key \<open>fields\<close> of the result).  A field
  entry has the keys \<open>access\<close>, \<open>name\<close>, \<open>type\<close>.
  The dictionary \<open>current_method\<close> is created at a method-start line with the keys \<open>access\<close>,
  \<open>name\<close>, \<open>params\<close>, \<open>return_type\<close>, \<open>full_signature\<close>, \<open>start_line\<close>; when the method is
  closed it receives \<open>body\<close> and \<open>line_count\<close> and joins the list \<open>methods\<close>.
\<close>

record smali_field =
  f_access :: string
  f_name :: string
  f_type :: string

record open_method =
  m_access :: string
  m_name :: string
  m_params :: string
  m_return_type :: string
  m_full_signature :: string
  m_start_line :: nat

record smali_method = open_method +
  m_body :: string
  m_line_count :: nat

record smali_class =
  class_name :: string
  super_class :: string
  source_file :: string
  interfaces :: "string list"
  field_list :: "smali_field list"
  methods :: "smali_method list"

text \<open>The variables of the loop: \<open>result\<close>, \<open>current_method\<close> and \<open>method_lines\<close>.\<close>

record parser_state =
  parsed :: smali_class
  current_method :: "open_method option"
  method_lines :: "string list"

definition parser_init :: parser_state where
  "parser_init =
     \<lparr>parsed = \<lparr>class_name = [], super_class = [], source_file = [], interfaces = [],
                 field_list = [], methods = []\<rparr>,
      current_method = None, method_lines = []\<rparr>"

text \<open>The finished method: \<open>current_method\<close> with \<open>body\<close> and \<open>line_count\<close> added.\<close>

definition close_method :: "open_method \<Rightarrow> string list \<Rightarrow> smali_method" where
  "close_method m ls =
     \<lparr>m_access = m_access m, m_name = m_name m, m_params = m_params m,
      m_return_type = m_return_type m, m_full_signature = m_full_signature m,
      m_start_line = m_start_line m, m_body = join_nl ls, m_line_count = length ls\<rparr>"

text \<open>One round of \<open>for line in lines\<close>: the chain of \<open>if\<close>/\<open>elif\<close> on the trimmed line.\<close>

definition parse_step :: "parser_state \<Rightarrow> string \<Rightarrow> parser_state" where
  "parse_step st raw =
     (let line = strip raw in
      if startswith line ''.class'' then
        (case rx_search class_re line of
           None \<Rightarrow> st
         | Some gs \<Rightarrow> st\<lparr>parsed := (parsed st)\<lparr>class_name := gs ! 0\<rparr>\<rparr>)
      else if startswith line ''.super'' then
        (case rx_search super_re line of
           None \<Rightarrow> st
         | Some gs \<Rightarrow> st\<lparr>parsed := (parsed st)\<lparr>super_class := gs ! 0\<rparr>\<rparr>)
      else if startswith line ''.source'' then
        (case rx_search source_re line of
           None \<Rightarrow> st
         | Some gs \<Rightarrow> st\<lparr>parsed := (parsed st)\<lparr>source_file := gs ! 0\<rparr>\<rparr>)
      else if startswith line ''.implements'' then
        (case rx_search implements_re line of
           None \<Rightarrow> st
         | Some gs \<Rightarrow>
             st\<lparr>parsed := (parsed st)\<lparr>interfaces := interfaces (parsed st) @ [gs ! 0]\<rparr>\<rparr>)
      else if startswith line ''.field'' then
        (case rx_search field_re line of
           None \<Rightarrow> st
         | Some gs \<Rightarrow>
             st\<lparr>parsed := (parsed st)\<lparr>field_list := field_list (parsed st) @
                  [\<lparr>f_access = gs ! 0, f_name = gs ! 1, f_type = gs ! 2\<rparr>]\<rparr>\<rparr>)
      else if startswith line ''.method'' then
        (case rx_search method_re line of
           None \<Rightarrow> st
         | Some gs \<Rightarrow>
             st\<lparr>current_method := Some
                  \<lparr>m_access = gs ! 0, m_name = gs ! 1, m_params = gs ! 2,
                   m_return_type = gs ! 3, m_full_signature = line,
                   m_start_line = length (method_lines st)\<rparr>,
                method_lines := [line]\<rparr>)
      else if startswith line ''.end method'' then
        (case current_method st of
           None \<Rightarrow> st
         | Some m \<Rightarrow>
             st\<lparr>parsed := (parsed st)\<lparr>methods := methods (parsed st) @
                  [close_method m (method_lines st @ [line])]\<rparr>,
                current_method := None, method_lines := []\<rparr>)
      else if current_method st \<noteq> None then
        st\<lparr>method_lines := method_lines st @ [line]\<rparr>
      else st)"

fun parse_loop :: "string list \<Rightarrow> parser_state \<Rightarrow> parser_state" where
  "parse_loop [] st = st"
| "parse_loop (line # rest) st = parse_loop rest (parse_step st line)"

definition parse_smali_class :: "string \<Rightarrow> smali_class" where
  "parse_smali_class doc = parsed (parse_loop (split_nl doc) parser_init)"


text \<open>
  What holds of the loop's variables while a method is open: the signature line of
  \<open>current_method\<close> begins with \<open>.method\<close> and is the first of \<open>method_lines\<close>.
\<close>

definition method_open_inv :: "parser_state \<Rightarrow> bool" where
  "method_open_inv st \<longleftrightarrow>
     (case current_method st of
        None \<Rightarrow> True
      | Some m \<Rightarrow> startswith (m_full_signature m) ''.method''
                  \<and> (\<exists>middle. method_lines st = m_full_signature m # middle))"


section \<open>The process bridge (\<open>fast_dex.py\<close>)\<close>

text \<open>
  Exceptions are values.  The handlers of \<open>_send_command\<close> tell \<open>json.JSONDecodeError\<close> from
  every other \<open>Exception\<close>; the string is \<open>str(e)\<close>.
\<close>

datatype py_exception = JSONDecodeError string | OtherException string

text \<open>
  The worker's standard output, as the successive calls of \<open>readline()\<close> see it: a call
  returns a line or raises; once the events are used up the stream is closed and
  \<open>readline()\<close> returns the empty string.
\<close>

datatype read_event = Line string | ReadRaises py_exception

text \<open>
  A \<open>subprocess.Popen\<close> handle: \<open>poll\<close> is the return code (\<open>None\<close> while the worker runs),
  \<open>stdin_write\<close> and \<open>stdin_flush\<close> are the exceptions that \<open>stdin.write\<close> and
  \<open>stdin.flush\<close> raise (if any), \<open>stdin_data\<close> is what has been written, \<open>stdout\<close> what is
  still to be read.
\<close>

record process =
  poll :: "int option"
  stdin_write :: "py_exception option"
  stdin_flush :: "py_exception option"
  stdin_data :: string
  stdout :: "read_event list"

text \<open>
  What the bridge calls outside this repository: \<open>popen\<close> is the outcome of
  \<open>subprocess.Popen([JAVA_PATH, "-jar", DEX_EDITOR_JAR], ...)\<close>, which raises when the worker
  cannot be started; \<open>json_dumps\<close> serialises the request \<open>{"command": .., "args": ..}\<close>;
  \<open>json_loads\<close> parses the response text into a value of type \<open>'j\<close> or raises.
\<close>

record 'j environment =
  popen :: "py_exception + process"
  json_dumps :: "string \<Rightarrow> string list \<Rightarrow> string"
  json_loads :: "string \<Rightarrow> py_exception + 'j"

text \<open>
  The dictionary returned by \<open>_send_command\<close>: the worker's parsed answer, or
  \<open>{"success": False, "error": msg}\<close> made up locally.
\<close>

datatype 'j response = Worker 'j | Failure string

text \<open>The inner loop \<open>for ch in line\<close> over \<open>brace_count\<close> and \<open>started\<close>.\<close>

fun count_braces :: "string \<Rightarrow> int \<Rightarrow> bool \<Rightarrow> int \<times> bool" where
  "count_braces [] brace_count started = (brace_count, started)"
| "count_braces (ch # rest) brace_count started =
     (if ch = CHR ''{'' then count_braces rest (brace_count + 1) True
      else if ch = CHR ''}'' then count_braces rest (brace_count - 1) started
      else count_braces rest brace_count started)"

text \<open>
  The \<open>while True\<close> loop that reads the response.  It yields the collected \<open>lines\<close> (or the
  exception raised by \<open>readline()\<close>) and the part of the stream left unread.
\<close>

fun read_loop ::
  "read_event list \<Rightarrow> string list \<Rightarrow> int \<Rightarrow> bool
     \<Rightarrow> (py_exception + string list) \<times> read_event list" where
  "read_loop [] lines brace_count started = (Inr lines, [])"
| "read_loop (ReadRaises e # rest) lines brace_count started = (Inl e, rest)"
| "read_loop (Line line # rest) lines brace_count started =
     (if line = [] then (Inr lines, rest)
      else
        (case count_braces line brace_count started of
           (brace_count, started) \<Rightarrow>
             (let lines = (if started then lines @ [line] else lines) in
              if started \<and> brace_count = 0 then (Inr lines, rest)
              else read_loop rest lines brace_count started)))"

text \<open>\<open>_ensure_process\<close>: spawn a worker when none is held or the held one has exited.\<close>

definition ensure_process :: "'j environment \<Rightarrow> process option \<Rightarrow> py_exception + process" where
  "ensure_process env proc =
     (case proc of
        None \<Rightarrow> popen env
      | Some p \<Rightarrow> if poll p \<noteq> None then popen env else Inr p)"

text \<open>The two \<open>except\<close> clauses of \<open>_send_command\<close>.\<close>

fun handle_exception :: "py_exception \<Rightarrow> 'j response" where
  "handle_exception (JSONDecodeError msg) = Failure (''JSON parse error: '' @ msg)"
| "handle_exception (OtherException msg) = Failure msg"

text \<open>
  The body of the \<open>try\<close> block of \<open>_send_command\<close>, run on the process \<open>p\<close> that
  \<open>_ensure_process\<close> left in \<open>self.process\<close>.  Every exception raised inside is handled, so
  the block always yields a response, together with the process as the exchange leaves it.
\<close>

definition try_send :: "'j environment \<Rightarrow> process \<Rightarrow> string \<Rightarrow> string list option
    \<Rightarrow> 'j response \<times> process" where
  "try_send env p command args =
     (let request = json_dumps env command (case args of None \<Rightarrow> [] | Some a \<Rightarrow> a)
                      @ [CHR 0x0A] in
      case stdin_write p of
        Some e \<Rightarrow> (handle_exception e, p)
      | None \<Rightarrow>
          (let p = p\<lparr>stdin_data := stdin_data p @ request\<rparr> in
           case stdin_flush p of
             Some e \<Rightarrow> (handle_exception e, p)
           | None \<Rightarrow>
               (case read_loop (stdout p) [] 0 False of
                  (Inl e, unread) \<Rightarrow> (handle_exception e, p\<lparr>stdout := unread\<rparr>)
                | (Inr lines, unread) \<Rightarrow>
                    (let p = p\<lparr>stdout := unread\<rparr> in
                     if lines = [] then (Failure ''No response from dex-editor'', p)
                     else
                       (case json_loads env (concat lines) of
                          Inl e \<Rightarrow> (handle_exception e, p)
                        | Inr v \<Rightarrow> (Worker v, p))))))"

text \<open>
  \<open>_send_command\<close>.  The call of \<open>_ensure_process\<close> stands before the \<open>try\<close>: an exception
  it raises leaves the function (\<open>Inl\<close>).  Otherwise the result is the response and the new
  value of \<open>self.process\<close>.
\<close>

definition send_command :: "'j environment \<Rightarrow> process option \<Rightarrow> string \<Rightarrow> string list option
    \<Rightarrow> py_exception + ('j response \<times> process option)" where
  "send_command env proc command args =
     (case ensure_process env proc of
        Inl e \<Rightarrow> Inl e
      | Inr p \<Rightarrow>
          (case try_send env p command args of
             (resp, p) \<Rightarrow> Inr (resp, Some p)))"






section \<open>Properties\<close>

subsection \<open>The string primitives\<close>

text \<open>
  \<open>startswith\<close> is the prefix test and \<open>str_in\<close> the test for a contiguous substring.
\<close>

lemma startswith_iff: "startswith s p \<longleftrightarrow> (\<exists>rest. s = p @ rest)"
  by (induction s p rule: startswith.induct) auto

lemma str_in_iff: "str_in p s \<longleftrightarrow> (\<exists>u v. s = u @ p @ v)"
proof (induction s)
  case Nil
  show ?case by auto
next
  case (Cons c cs)
  show ?case
  proof
    assume "str_in p (c # cs)"
    then consider "startswith (c # cs) p" | "str_in p cs"
      by auto
    then show "\<exists>u v. c # cs = u @ p @ v"
    proof cases
      case 1
      then obtain rest where "c # cs = [] @ p @ rest"
        by (auto simp: startswith_iff)
      then show ?thesis by blast
    next
      case 2
      with Cons.IH obtain u v where "cs = u @ p @ v"
        by blast
      then have "c # cs = (c # u) @ p @ v"
        by simp
      then show ?thesis by blast
    qed
  next
    assume "\<exists>u v. c # cs = u @ p @ v"
    then obtain u v where uv: "c # cs = u @ p @ v"
      by blast
    show "str_in p (c # cs)"
    proof (cases u)
      case Nil
      with uv have "startswith (c # cs) p"
        by (auto simp: startswith_iff)
      then show ?thesis by simp
    next
      case (Cons d u')
      with uv have "cs = u' @ p @ v"
        by simp
      with Cons.IH have "str_in p cs"
        by blast
      then show ?thesis by simp
    qed
  qed
qed

subsection \<open>Splitting and joining lines\<close>

lemma split_nl_not_Nil: "split_nl s \<noteq> []"
  by (induction s) (auto split: list.splits)

lemma join_split_nl: "join_nl (split_nl s) = s"
proof (induction s)
  case Nil
  then show ?case by simp
next
  case (Cons c cs)
  obtain l ls where sp: "split_nl cs = l # ls"
    using split_nl_not_Nil [of cs] by (cases "split_nl cs") auto
  show ?case
  proof (cases "c = CHR 0x0A")
    case True
    with Cons sp show ?thesis by simp
  next
    case False
    with Cons sp show ?thesis by (cases ls) auto
  qed
qed






lemmas eval_defs = is_target_def is_end_method_def strip_def is_space_def

subsection \<open>The scans on documents without a matching line\<close>

lemma insert_loop_no_target:
  "\<forall>l\<in>set ls. \<not> is_target n l \<Longrightarrow> insert_loop n c p ls rl False mf = (rl @ ls, mf)"
  by (induction ls arbitrary: rl) auto

lemma replace_loop_no_target:
  "\<forall>l\<in>set ls. \<not> is_target n l \<Longrightarrow> replace_loop n b ls rl False mr = (rl @ ls, mr)"
  by (induction ls arbitrary: rl) auto

lemma get_method_loop_no_target:
  "\<forall>l\<in>set ls. \<not> is_target n l \<Longrightarrow>
   get_method_loop n ls i False ml sl =
     \<lparr>success = False, error = not_found n, method_text = [], start_line = None, end_line = None\<rparr>"
  by (induction ls arbitrary: i) auto

text \<open>
  C5, as the code has it.  When no line of the document contains both \<open>.method\<close> and the
  target name (the test of the scans, which looks at every line and not only at method-start
  lines), extraction, replacement and insertion (at any position) all return the failure
  dictionary whose error is \<open>Method not found: \<close> followed by the target name.  The
  functions are pure: the failure carries an empty \<open>method\<close> or \<open>content\<close>, and no edited
  document is produced.
\<close>

theorem not_found_semantics:
  assumes "\<forall>line\<in>set (split_nl doc). \<not> is_target method_name line"
  shows "get_method_from_smali doc method_name =
           \<lparr>success = False, error = ''Method not found: '' @ method_name, method_text = [],
            start_line = None, end_line = None\<rparr>
       \<and> replace_method_in_smali doc method_name new_method_body =
           \<lparr>success = False, error = ''Method not found: '' @ method_name, content = []\<rparr>
       \<and> insert_smali_code doc method_name code position =
           \<lparr>success = False, error = ''Method not found: '' @ method_name, content = []\<rparr>"
  using assms
  by (simp add: get_method_from_smali_def replace_method_in_smali_def insert_smali_code_def
      get_method_loop_no_target replace_loop_no_target insert_loop_no_target not_found_def)

theorem not_found_semantics_witness:
  "get_method_from_smali (join_nl [''.method public bar()V'', ''return-void'', ''.end method''])
     ''foo'' =
     \<lparr>success = False, error = ''Method not found: foo'', method_text = [],
      start_line = None, end_line = None\<rparr>
   \<and> replace_method_in_smali
       (join_nl [''.method public bar()V'', ''return-void'', ''.end method'']) ''foo'' ''nop'' =
     \<lparr>success = False, error = ''Method not found: foo'', content = []\<rparr>
   \<and> insert_smali_code
       (join_nl [''.method public bar()V'', ''return-void'', ''.end method''])
       ''foo'' ''nop'' ''end'' =
     \<lparr>success = False, error = ''Method not found: foo'', content = []\<rparr>"
proof -
  have h: "\<forall>line\<in>set (split_nl
              (join_nl [''.method public bar()V'', ''return-void'', ''.end method''])).
             \<not> is_target ''foo'' line"
    by (simp add: is_target_def)
  show ?thesis
    using not_found_semantics [OF h, of "''nop''" "''nop''" "''end''"] by simp
qed

text \<open>
  C5 as stated fails: a line inside the method \<open>bar\<close> that holds the string constant
  \<open>foo.method\<close> is no method-start line, and no method-start line contains \<open>foo\<close>; yet
  extraction, replacement and insertion with the target \<open>foo\<close> all succeed, and the
  replacement drops the rest of \<open>bar\<close>.
\<close>

theorem not_found_substring_counterexample:
  "\<not> str_in ''foo'' ''.method public bar()V''
   \<and> \<not> is_method_start (''    const-string v0, '' @ [CHR 0x22] @ ''foo.method'' @ [CHR 0x22])
   \<and> \<not> is_method_start ''.end method''
   \<and> success (get_method_from_smali
         (join_nl [''.method public bar()V'',
                   ''    const-string v0, '' @ [CHR 0x22] @ ''foo.method'' @ [CHR 0x22],
                   ''.end method'']) ''foo'')
   \<and> replace_method_in_smali
         (join_nl [''.method public bar()V'',
                   ''    const-string v0, '' @ [CHR 0x22] @ ''foo.method'' @ [CHR 0x22],
                   ''.end method'']) ''foo'' ''X''
       = \<lparr>success = True, error = [], content = join_nl [''.method public bar()V'', ''X'']\<rparr>
   \<and> success (insert_smali_code
         (join_nl [''.method public bar()V'',
                   ''    const-string v0, '' @ [CHR 0x22] @ ''foo.method'' @ [CHR 0x22],
                   ''.end method'']) ''foo'' ''nop'' ''start'')"
  by (simp add: is_method_start_def get_method_from_smali_def replace_method_in_smali_def
      insert_smali_code_def Let_def eval_defs)

subsection \<open>Insertion\<close>

lemma insert_loop_other_position:
  "p \<noteq> ''start'' \<Longrightarrow> p \<noteq> ''end'' \<Longrightarrow>
   insert_loop n c p ls rl im mf = (rl @ ls, mf \<or> (\<exists>l\<in>set ls. is_target n l))"
  by (induction ls arbitrary: rl im mf) (auto simp: Let_def)

lemma insert_loop_start_no_locals:
  "\<forall>l\<in>set (matched_method_lines n im ls). \<not> startswith (strip l) ''.locals'' \<Longrightarrow>
   insert_loop n c ''start'' ls rl im mf = (rl @ ls, mf \<or> (\<exists>l\<in>set ls. is_target n l))"
  by (induction ls arbitrary: rl im mf) (auto simp: Let_def)

text \<open>
  The position is only ever compared with \<open>start\<close> and \<open>end\<close>; no branch rejects another
  value.  On a document with a line matching the target, any other position inserts nothing:
  the call returns success and the content is the input document.
\<close>

lemma insert_other_position:
  assumes "position \<noteq> ''start''" and "position \<noteq> ''end''"
    and "\<exists>line\<in>set (split_nl doc). is_target method_name line"
  shows "insert_smali_code doc method_name code position =
           \<lparr>success = True, error = [], content = doc\<rparr>"
  using assms
  by (simp add: insert_smali_code_def insert_loop_other_position join_split_nl)

lemma insert_other_position_example:
  "insert_smali_code
     (join_nl [''.method public foo()V'', ''.locals 1'', ''return-void'', ''.end method''])
     ''foo'' ''nop'' ''2''
   = \<lparr>success = True, error = [],
      content = join_nl [''.method public foo()V'', ''.locals 1'', ''return-void'',
                         ''.end method'']\<rparr>"
proof -
  have m: "\<exists>line\<in>set (split_nl (join_nl
              [''.method public foo()V'', ''.locals 1'', ''return-void'', ''.end method''])).
             is_target ''foo'' line"
    by (simp add: is_target_def)
  have p: "''2'' \<noteq> ''start''" "''2'' \<noteq> ''end''"
    by simp_all
  show ?thesis
    using insert_other_position [OF p m, of "''nop''"] by simp
qed

text \<open>
  C4.  An invalid position is to be answered by a failure that reports it.  The code does not
  give one: on the document of the concrete scenario, the position \<open>middle\<close> yields success, an
  empty error and the unchanged document.
\<close>

theorem insert_invalid_position_succeeds:
  "insert_smali_code
     (join_nl [''.method public foo()V'', ''.locals 1'', ''return-void'', ''.end method''])
     ''foo'' ''const/4 v0, 0x0'' ''middle''
   = \<lparr>success = True, error = [],
      content = join_nl [''.method public foo()V'', ''.locals 1'', ''return-void'',
                         ''.end method'']\<rparr>"
  by (simp add: insert_smali_code_def eval_defs)

text \<open>
  C9, as the code has it.  The scan does not stop at the first matching method: it enters a
  span at every line matching the target.  When the document has a line matching the target
  and no line inside any of these spans begins, after trimming, with \<open>.locals\<close>, insertion at
  \<open>start\<close> returns success and the content is the input document.
\<close>

theorem insert_start_without_locals:
  assumes "\<exists>line\<in>set (split_nl doc). is_target method_name line"
    and "\<forall>line\<in>set (matched_method_lines method_name False (split_nl doc)).
           \<not> startswith (strip line) ''.locals''"
  shows "insert_smali_code doc method_name code ''start'' =
           \<lparr>success = True, error = [], content = doc\<rparr>"
  using assms
  by (simp add: insert_smali_code_def insert_loop_start_no_locals join_split_nl)

theorem insert_start_without_locals_witness:
  "insert_smali_code
     (join_nl [''.method public foo()V'', ''    return-void'', ''.end method'', ''.locals 9''])
     ''foo'' ''const/4 v0, 0x0'' ''start''
   = \<lparr>success = True, error = [],
      content = join_nl [''.method public foo()V'', ''    return-void'', ''.end method'',
                         ''.locals 9'']\<rparr>"
proof -
  have m: "\<exists>line\<in>set (split_nl (join_nl
              [''.method public foo()V'', ''    return-void'', ''.end method'', ''.locals 9''])).
             is_target ''foo'' line"
    by (simp add: is_target_def)
  have l: "\<forall>line\<in>set (matched_method_lines ''foo'' False (split_nl (join_nl
              [''.method public foo()V'', ''    return-void'', ''.end method'', ''.locals 9'']))).
             \<not> startswith (strip line) ''.locals''"
    by (simp add: is_target_def is_end_method_def strip_def is_space_def)
  show ?thesis
    using insert_start_without_locals [OF m l, of "''const/4 v0, 0x0''"] by simp
qed

text \<open>
  C9 as stated fails: with the overloads \<open>foo(I)V\<close>, which has no \<open>.locals\<close> line, and
  \<open>foo(J)V\<close>, which has one, the first method matching \<open>foo\<close> has no such line, yet the
  code is inserted into the second and the content differs from the input.
\<close>

theorem insert_start_overload_counterexample:
  "is_target ''foo'' ''.method public foo(I)V''
   \<and> \<not> startswith (strip ''    return-void'') ''.locals''
   \<and> \<not> startswith (strip ''.end method'') ''.locals''
   \<and> is_end_method ''.end method''
   \<and> insert_smali_code
       (join_nl [''.method public foo(I)V'', ''    return-void'', ''.end method'',
                 ''.method public foo(J)V'', ''    .locals 1'', ''    return-void'',
                 ''.end method''])
       ''foo'' ''    const/4 v0, 0x0'' ''start''
     = \<lparr>success = True, error = [],
        content = join_nl [''.method public foo(I)V'', ''    return-void'', ''.end method'',
                 ''.method public foo(J)V'', ''    .locals 1'', ''    const/4 v0, 0x0'',
                 ''    return-void'', ''.end method'']\<rparr>
   \<and> join_nl [''.method public foo(I)V'', ''    return-void'', ''.end method'',
                 ''.method public foo(J)V'', ''    .locals 1'', ''    const/4 v0, 0x0'',
                 ''    return-void'', ''.end method'']
     \<noteq> join_nl [''.method public foo(I)V'', ''    return-void'', ''.end method'',
                 ''.method public foo(J)V'', ''    .locals 1'', ''    return-void'',
                 ''.end method'']"
  by (simp add: insert_smali_code_def Let_def eval_defs)

subsection \<open>End markers never match a target\<close>

lemma strip_decomp:
  "\<exists>a b. s = a @ strip s @ b \<and> (\<forall>c\<in>set a. is_space c) \<and> (\<forall>c\<in>set b. is_space c)"
proof -
  define a where "a = takeWhile is_space s"
  define d where "d = dropWhile is_space s"
  define b where "b = rev (takeWhile is_space (rev d))"
  have "d = rev (dropWhile is_space (rev d)) @ rev (takeWhile is_space (rev d))"
    by (metis rev_append rev_rev_ident takeWhile_dropWhile_id)
  then have d: "d = strip s @ b"
    by (simp only: strip_def b_def d_def)
  have "s = a @ d"
    by (simp add: a_def d_def)
  with d have "s = a @ strip s @ b"
    by simp
  moreover have "\<forall>c\<in>set a. is_space c"
    unfolding a_def by (auto dest: set_takeWhileD)
  moreover have "\<forall>c\<in>set b. is_space c"
    unfolding b_def by (auto dest: set_takeWhileD)
  ultimately show ?thesis by blast
qed

lemma space_not_dot: "is_space c \<Longrightarrow> c \<noteq> CHR ''.''"
  by (auto simp: is_space_def)

lemma str_in_method_skip_spaces:
  "\<forall>c\<in>set a. is_space c \<Longrightarrow> str_in ''.method'' (a @ t) = str_in ''.method'' t"
  by (induction a) (auto dest: space_not_dot)

lemma str_in_method_spaces:
  "\<forall>c\<in>set b. is_space c \<Longrightarrow> \<not> str_in ''.method'' b"
  by (induction b) (auto dest: space_not_dot)

lemma end_method_not_target: "is_end_method e \<Longrightarrow> \<not> is_target n e"
proof -
  assume e: "is_end_method e"
  obtain a b where ab: "e = a @ strip e @ b" "\<forall>c\<in>set a. is_space c" "\<forall>c\<in>set b. is_space c"
    using strip_decomp [of e] by blast
  from e ab(1) have "e = a @ (''.end method'' @ b)"
    by (simp add: is_end_method_def)
  then have "str_in ''.method'' e = str_in ''.method'' (''.end method'' @ b)"
    using str_in_method_skip_spaces [OF ab(2)] by metis
  also have "\<dots> = str_in ''.method'' b"
    by simp
  finally show ?thesis
    using str_in_method_spaces [OF ab(3)] by (simp add: is_target_def)
qed

subsection \<open>Replacement\<close>

lemma replace_loop_acc:
  "replace_loop n b ls rl im mr =
     (rl @ fst (replace_loop n b ls [] im False), mr \<or> snd (replace_loop n b ls [] im False))"
proof (induction ls arbitrary: rl im mr)
  case Nil
  show ?case by simp
next
  case (Cons l ls)
  show ?case
  proof (cases "is_target n l")
    case True
    then show ?thesis
      using Cons.IH [of "rl @ [b]" True True] Cons.IH [of "[b]" True True] by simp
  next
    case nt: False
    show ?thesis
    proof (cases im)
      case True
      with nt show ?thesis
        using Cons.IH [of rl "if is_end_method l then False else True" mr] by simp
    next
      case False
      with nt show ?thesis
        using Cons.IH [of "rl @ [l]" False mr] Cons.IH [of "[l]" False False] by simp
    qed
  qed
qed

lemma replace_loop_to_target:
  "is_target n s \<Longrightarrow>
   replace_loop n b (pre @ s # rest) rl im mr =
     replace_loop n b rest (fst (replace_loop n b pre rl im mr) @ [b]) True True"
  by (induction pre arbitrary: rl im mr) auto


lemma replace_loop_span:
  "\<forall>l\<in>set body. \<not> is_end_method l \<Longrightarrow> is_end_method e \<Longrightarrow>
   replace_loop n b (body @ e # post) rl True True =
     replace_loop n b post (rl @ replicate (length (filter (is_target n) body)) b) False True"
  by (induction body arbitrary: rl) (auto simp: replicate_app_Cons_same end_method_not_target)

text \<open>
  The general shape of a replacement.  Let \<open>s\<close> be the first line matching the target and
  \<open>e\<close> the first end marker after it.  Every line before \<open>s\<close> is kept; the span from \<open>s\<close>
  through \<open>e\<close> yields the replacement text, once for \<open>s\<close> and once more for every further
  matching line inside the span; the lines after \<open>e\<close> go through the same scan.
\<close>

lemma replace_span_general:
  assumes lines: "split_nl doc = pre @ s # body @ e # post"
    and pre: "\<forall>line\<in>set pre. \<not> is_target method_name line"
    and s: "is_target method_name s"
    and body: "\<forall>line\<in>set body. \<not> is_end_method line"
    and e: "is_end_method e"
  shows "replace_method_in_smali doc method_name new_method_body =
           \<lparr>success = True, error = [],
            content = join_nl (pre
              @ replicate (Suc (length (filter (is_target method_name) body))) new_method_body
              @ fst (replace_loop method_name new_method_body post [] False False))\<rparr>"
proof -
  let ?k = "length (filter (is_target method_name) body)"
  let ?R = "replace_loop method_name new_method_body"
  have "?R (split_nl doc) [] False False = ?R (body @ e # post) (pre @ [new_method_body]) True True"
    using lines replace_loop_to_target [OF s, of new_method_body pre "body @ e # post" "[]" False False]
      replace_loop_no_target [OF pre, of new_method_body "[]" False]
    by simp
  also have "\<dots> = ?R post ((pre @ [new_method_body]) @ replicate ?k new_method_body) False True"
    by (rule replace_loop_span [OF body e])
  also have "\<dots> = (((pre @ [new_method_body]) @ replicate ?k new_method_body)
                       @ fst (?R post [] False False), True)"
    using replace_loop_acc [of method_name new_method_body post
        "(pre @ [new_method_body]) @ replicate ?k new_method_body" False True]
    by simp
  finally have "?R (split_nl doc) [] False False =
      (pre @ replicate (Suc ?k) new_method_body @ fst (?R post [] False False), True)"
    by (simp add: replicate_app_Cons_same)
  then show ?thesis
    by (simp add: replace_method_in_smali_def)
qed

text \<open>
  C3, as the code has it.  Let \<open>s\<close> be a line matching the target, let \<open>e\<close> be the first end
  marker after it, and let no other line of the document match the target.  Then the
  replacement succeeds, and its content is: the lines before \<open>s\<close> unchanged, the replacement
  text in place of the span from \<open>s\<close> through \<open>e\<close>, the lines after \<open>e\<close> unchanged.
\<close>

theorem replace_first_span:
  assumes lines: "split_nl doc = pre @ s # body @ e # post"
    and s: "is_target method_name s"
    and others: "\<forall>line\<in>set (pre @ body @ post). \<not> is_target method_name line"
    and body: "\<forall>line\<in>set body. \<not> is_end_method line"
    and e: "is_end_method e"
  shows "replace_method_in_smali doc method_name new_method_body =
           \<lparr>success = True, error = [], content = join_nl (pre @ new_method_body # post)\<rparr>"
proof -
  from others have pre: "\<forall>line\<in>set pre. \<not> is_target method_name line"
    by simp
  from others have "filter (is_target method_name) body = []"
    by (auto simp: filter_empty_conv)
  moreover from others
  have "replace_loop method_name new_method_body post [] False False = (post, False)"
    using replace_loop_no_target [of post method_name new_method_body "[]" False] by simp
  ultimately show ?thesis
    using replace_span_general [OF lines pre s body e, of new_method_body] by simp
qed

theorem replace_first_span_witness:
  "replace_method_in_smali
     (join_nl [''.class public LFoo;'', ''.method public foo()V'', ''    return-void'',
               ''.end method'', ''# tail''])
     ''foo'' ''NEW''
   = \<lparr>success = True, error = [],
      content = join_nl [''.class public LFoo;'', ''NEW'', ''# tail'']\<rparr>"
proof -
  have lines: "split_nl (join_nl [''.class public LFoo;'', ''.method public foo()V'',
        ''    return-void'', ''.end method'', ''# tail''])
      = [''.class public LFoo;''] @ ''.method public foo()V'' # [''    return-void'']
          @ ''.end method'' # [''# tail'']"
    by simp
  have s: "is_target ''foo'' ''.method public foo()V''"
    by (simp add: is_target_def)
  have others: "\<forall>line\<in>set ([''.class public LFoo;''] @ [''    return-void''] @ [''# tail'']).
      \<not> is_target ''foo'' line"
    by (simp add: is_target_def)
  have body: "\<forall>line\<in>set [''    return-void'']. \<not> is_end_method line"
    by (simp add: eval_defs)
  have e: "is_end_method ''.end method''"
    by (simp add: eval_defs)
  show ?thesis
    using replace_first_span [OF lines s others body e, of "''NEW''"] by simp
qed

text \<open>
  C3 as stated fails: the scan does not stop after the first matching method.  With
  the methods \<open>foo\<close> and \<open>foo2\<close> and the target \<open>foo\<close>, the lines after the end marker of
  \<open>foo\<close> are not preserved, since \<open>foo2\<close> is replaced as well; and a second matching line
  inside the span makes the replacement text appear twice.
\<close>

theorem replace_every_match_counterexample:
  "replace_method_in_smali
     (join_nl [''.method public foo()V'', ''return-void'', ''.end method'',
               ''.method public foo2()V'', ''return-void'', ''.end method''])
     ''foo'' ''X''
   = \<lparr>success = True, error = [], content = join_nl [''X'', ''X'']\<rparr>
   \<and> join_nl [''X'', ''X'']
     \<noteq> join_nl [''X'', ''.method public foo2()V'', ''return-void'', ''.end method'']
   \<and> replace_method_in_smali
     (join_nl [''.method public foo()V'', ''.method public foo2()V'', ''.end method'',
               ''# tail''])
     ''foo'' ''X''
   = \<lparr>success = True, error = [], content = join_nl [''X'', ''X'', ''# tail'']\<rparr>"
  by (simp add: replace_method_in_smali_def eval_defs)



subsection \<open>Extraction, and the round trip with replacement\<close>











subsection \<open>The frame reader\<close>












subsection \<open>Sending a command\<close>

lemma send_command_raises:
  "ensure_process env proc = Inl e \<Longrightarrow> send_command env proc command args = Inl e"
  by (simp add: send_command_def)

lemma send_command_returns:
  "ensure_process env proc = Inr p \<Longrightarrow>
   \<exists>resp p'. send_command env proc command args = Inr (resp, Some p')"
  by (simp add: send_command_def split: prod.splits)

lemma ensure_process_alive:
  "poll p = None \<Longrightarrow> ensure_process env (Some p) = Inr p"
  by (simp add: ensure_process_def)

lemma ensure_process_respawn:
  "proc = None \<or> (\<exists>p c. proc = Some p \<and> poll p = Some c) \<Longrightarrow>
   ensure_process env proc = popen env"
  by (auto simp: ensure_process_def)

text \<open>
  C2.  A send is never to raise, also when the worker fails to start.  The code raises
  there: \<open>_ensure_process\<close> is called before the \<open>try\<close>, so the exception of
  \<open>subprocess.Popen\<close> leaves \<open>_send_command\<close>, on first use as well as after the held worker
  has exited.
\<close>

theorem send_command_spawn_failure_raises:
  "send_command
     \<lparr>popen = Inl (OtherException ''[Errno 2] No such file or directory: java''),
      json_dumps = (\<lambda>command args. command), json_loads = (\<lambda>text. Inr text)\<rparr>
     None ''open'' (Some [''app.apk''])
   = Inl (OtherException ''[Errno 2] No such file or directory: java'')
   \<and> send_command
     \<lparr>popen = Inl (OtherException ''[Errno 2] No such file or directory: java''),
      json_dumps = (\<lambda>command args. command), json_loads = (\<lambda>text. Inr text)\<rparr>
     (Some \<lparr>poll = Some (- 9), stdin_write = None, stdin_flush = None, stdin_data = [],
            stdout = []\<rparr>)
     ''open'' (Some [''app.apk''])
   = Inl (OtherException ''[Errno 2] No such file or directory: java'')"
  by (simp add: send_command_def ensure_process_def)

subsection \<open>The parser\<close>

lemmas rx_defs = class_type_re_def class_re_def super_re_def source_re_def implements_re_def
  field_re_def method_re_def non_space_def any_char_def not_rparen_def not_quote_def
  is_word_def class_char_def grow_def

lemma parse_loop_append: "parse_loop (a @ b) st = parse_loop b (parse_loop a st)"
  by (induction a arbitrary: st) auto

lemma method_open_inv_init: "method_open_inv parser_init"
  by (simp add: method_open_inv_def parser_init_def)

lemma parse_step_effect:
  "(current_method (parse_step st raw) = current_method st
      \<and> method_lines (parse_step st raw) = method_lines st)
   \<or> (startswith (strip raw) ''.method''
      \<and> (\<exists>m. current_method (parse_step st raw) = Some m \<and> m_full_signature m = strip raw)
      \<and> method_lines (parse_step st raw) = [strip raw])
   \<or> (startswith (strip raw) ''.end method'' \<and> current_method st \<noteq> None
      \<and> current_method (parse_step st raw) = None \<and> method_lines (parse_step st raw) = [])
   \<or> (current_method st \<noteq> None \<and> current_method (parse_step st raw) = current_method st
      \<and> method_lines (parse_step st raw) = method_lines st @ [strip raw])"
proof -
  let ?line = "strip raw"
  consider
    (cls) "startswith ?line ''.class''"
  | (sup) "\<not> startswith ?line ''.class''" "startswith ?line ''.super''"
  | (src) "\<not> startswith ?line ''.class''" "\<not> startswith ?line ''.super''"
      "startswith ?line ''.source''"
  | (imp) "\<not> startswith ?line ''.class''" "\<not> startswith ?line ''.super''"
      "\<not> startswith ?line ''.source''" "startswith ?line ''.implements''"
  | (fld) "\<not> startswith ?line ''.class''" "\<not> startswith ?line ''.super''"
      "\<not> startswith ?line ''.source''" "\<not> startswith ?line ''.implements''"
      "startswith ?line ''.field''"
  | (mth) "\<not> startswith ?line ''.class''" "\<not> startswith ?line ''.super''"
      "\<not> startswith ?line ''.source''" "\<not> startswith ?line ''.implements''"
      "\<not> startswith ?line ''.field''" "startswith ?line ''.method''"
  | (other) "\<not> startswith ?line ''.class''" "\<not> startswith ?line ''.super''"
      "\<not> startswith ?line ''.source''" "\<not> startswith ?line ''.implements''"
      "\<not> startswith ?line ''.field''" "\<not> startswith ?line ''.method''"
    by blast
  then show ?thesis
  proof cases
    case cls
    then show ?thesis by (simp add: parse_step_def Let_def split: option.split)
  next
    case sup
    then show ?thesis by (simp add: parse_step_def Let_def split: option.split)
  next
    case src
    then show ?thesis by (simp add: parse_step_def Let_def split: option.split)
  next
    case imp
    then show ?thesis by (simp add: parse_step_def Let_def split: option.split)
  next
    case fld
    then show ?thesis by (simp add: parse_step_def Let_def split: option.split)
  next
    case mth
    then show ?thesis by (simp add: parse_step_def Let_def split: option.split)
  next
    case other
    then show ?thesis by (simp add: parse_step_def Let_def split: option.split)
  qed
qed

lemma method_open_inv_step:
  assumes "method_open_inv st"
  shows "method_open_inv (parse_step st raw)"
  using parse_step_effect [of st raw] assms
  by (auto simp: method_open_inv_def split: option.splits)

lemma method_open_inv_loop: "method_open_inv st \<Longrightarrow> method_open_inv (parse_loop ls st)"
  by (induction ls arbitrary: st) (auto simp: method_open_inv_step)

lemma parse_step_end_method:
  assumes "current_method st = Some m" and "startswith (strip raw) ''.end method''"
  shows "parse_step st raw =
     st\<lparr>parsed := (parsed st)\<lparr>methods := methods (parsed st) @
            [close_method m (method_lines st @ [strip raw])]\<rparr>,
        current_method := None, method_lines := []\<rparr>"
proof -
  from assms(2) obtain rest where "strip raw = ''.end method'' @ rest"
    by (auto simp: startswith_iff)
  with assms(1) show ?thesis
    by (simp add: parse_step_def)
qed

lemma parse_step_closes_only_at_end:
  assumes "current_method st = Some m" and "current_method (parse_step st raw) = None"
  shows "startswith (strip raw) ''.end method''"
  using parse_step_effect [of st raw] assms by auto

text \<open>
  C8, as the code has it.  Let the parser have read the lines \<open>pre\<close> and hold an open
  method \<open>m\<close>.  If the next line, after trimming, begins with \<open>.end method\<close>, the method is
  closed: it is appended to \<open>methods\<close> with a body that starts with its \<open>.method\<close> line and
  ends with the closing line, \<open>current_method\<close> is cleared and \<open>method_lines\<close> is emptied.
  And only such a line clears \<open>current_method\<close>.
\<close>

theorem parser_closes_method:
  assumes st: "st = parse_loop pre parser_init"
    and cur: "current_method st = Some m"
  shows "(startswith (strip raw) ''.end method'' \<longrightarrow>
            parse_loop (pre @ [raw]) parser_init =
              st\<lparr>parsed := (parsed st)\<lparr>methods := methods (parsed st) @
                     [close_method m (method_lines st @ [strip raw])]\<rparr>,
                 current_method := None, method_lines := []\<rparr>
            \<and> startswith (m_full_signature m) ''.method''
            \<and> (\<exists>middle. m_body (close_method m (method_lines st @ [strip raw])) =
                  join_nl (m_full_signature m # middle @ [strip raw])))
       \<and> (current_method (parse_loop (pre @ [raw]) parser_init) = None \<longrightarrow>
            startswith (strip raw) ''.end method'')"
proof -
  have step: "parse_loop (pre @ [raw]) parser_init = parse_step st raw"
    by (simp add: parse_loop_append st)
  have "method_open_inv st"
    unfolding st by (rule method_open_inv_loop [OF method_open_inv_init])
  with cur obtain middle where
    sig: "startswith (m_full_signature m) ''.method''"
      and ml: "method_lines st = m_full_signature m # middle"
    by (auto simp: method_open_inv_def)
  have "m_body (close_method m (method_lines st @ [strip raw])) =
      join_nl (m_full_signature m # middle @ [strip raw])"
    by (simp add: close_method_def ml)
  with sig step parse_step_end_method [OF cur] parse_step_closes_only_at_end [OF cur]
  show ?thesis by auto
qed

theorem parser_closes_method_witness:
  "parse_loop ([''.class public LFoo;'', ''.method public foo()V'', ''    return-void'']
      @ [''.end method'']) parser_init
   = \<lparr>parsed = \<lparr>class_name = ''LFoo;'', super_class = [], source_file = [], interfaces = [],
        field_list = [],
        methods = [\<lparr>m_access = ''public'', m_name = ''foo'', m_params = [],
          m_return_type = ''V'', m_full_signature = ''.method public foo()V'',
          m_start_line = 0,
          m_body = join_nl [''.method public foo()V'', ''return-void'', ''.end method''],
          m_line_count = 3\<rparr>]\<rparr>,
      current_method = None, method_lines = []\<rparr>"
proof -
  let ?pre = "[''.class public LFoo;'', ''.method public foo()V'', ''    return-void'']"
  let ?m = "\<lparr>m_access = ''public'', m_name = ''foo'', m_params = [], m_return_type = ''V'',
    m_full_signature = ''.method public foo()V'', m_start_line = 0\<rparr>"
  let ?st = "\<lparr>parsed = \<lparr>class_name = ''LFoo;'', super_class = [], source_file = [],
      interfaces = [], field_list = [], methods = []\<rparr>,
    current_method = Some ?m,
    method_lines = [''.method public foo()V'', ''return-void'']\<rparr>"
  have st: "?st = parse_loop ?pre parser_init"
    by (simp add: parser_init_def parse_step_def Let_def strip_def is_space_def rx_defs)
  have cur: "current_method ?st = Some ?m"
    by simp
  have e: "startswith (strip ''.end method'') ''.end method''"
    by (simp add: strip_def is_space_def)
  show ?thesis
    using parser_closes_method [OF st cur, of "''.end method''"] e
    by (simp add: close_method_def strip_def is_space_def)
qed

text \<open>
  C8 as stated fails: the end of a method is recognised by \<open>startswith\<close>, so the
  line \<open>.end method extra\<close>, which is not equal to the end marker, closes the method.
\<close>

theorem parser_end_prefix_counterexample:
  "methods (parse_smali_class
     (join_nl [''.method public foo()V'', ''return-void'', ''.end method extra'']))
   = [\<lparr>m_access = ''public'', m_name = ''foo'', m_params = [], m_return_type = ''V'',
       m_full_signature = ''.method public foo()V'', m_start_line = 0,
       m_body = join_nl [''.method public foo()V'', ''return-void'', ''.end method extra''],
       m_line_count = 3\<rparr>]
   \<and> strip ''.end method extra'' \<noteq> ''.end method''"
  by (simp add: parse_smali_class_def parser_init_def parse_step_def Let_def close_method_def
      strip_def is_space_def rx_defs)

subsection \<open>The concrete scenario\<close>

text \<open>
  C7.  On the document with the four lines \<open>.method public foo()V\<close>, \<open>.locals 1\<close>,
  \<open>return-void\<close>, \<open>.end method\<close>, inserting \<open>const/4 v0, 0x0\<close> into \<open>foo\<close> at position
  \<open>start\<close> succeeds and yields the same document with the new line right after \<open>.locals 1\<close>.
\<close>

theorem insert_start_scenario:
  "insert_smali_code
     (join_nl [''.method public foo()V'', ''.locals 1'', ''return-void'', ''.end method''])
     ''foo'' ''const/4 v0, 0x0'' ''start''
   = \<lparr>success = True, error = '''',
      content = join_nl [''.method public foo()V'', ''.locals 1'', ''const/4 v0, 0x0'',
                         ''return-void'', ''.end method'']\<rparr>"
  by (simp add: insert_smali_code_def is_target_def is_end_method_def strip_def is_space_def)

end
